theory Spec2Isabelle
  imports Main
begin

section \<open>The dark-theme hook of the MLflow UI\<close>

text \<open>
  The development embeds \<^verbatim>\<open>useMLflowDarkTheme\<close>
  (\<^verbatim>\<open>mlflow/server/js/src/common/hooks/useMLflowDarkTheme.tsx\<close>). The hook keeps one
  boolean in React state, seeds it from \<^verbatim>\<open>localStorage\<close> and from the media query
  \<^verbatim>\<open>(prefers-color-scheme: dark)\<close>, and after a change of the boolean toggles a class
  on \<^verbatim>\<open>document.body\<close> and stores the boolean as a string.

  The ambient objects the hook touches (\<^verbatim>\<open>localStorage\<close>,
  \<^verbatim>\<open>document.body.classList\<close>, \<^verbatim>\<open>window.matchMedia\<close>) and the two memory cells
  React keeps for the hook (the state of \<^verbatim>\<open>useState\<close>, the dependency array of
  \<^verbatim>\<open>useEffect\<close>) are the fields of one record that every function takes and returns.
  Each call of the host interface is also appended to a trace, so that reads and writes
  can be told apart and counted.
\<close>

subsection \<open>Constants of the module\<close>

definition darkModePrefLocalStorageKey :: string where
  "darkModePrefLocalStorageKey = ''_mlflow_dark_mode_toggle_enabled''"

definition darkModeBodyClassName :: string where
  "darkModeBodyClassName = ''dark-mode''"

text \<open>The media query is a literal inside the initializer; it is named here.\<close>

definition prefersDarkQuery :: string where
  "prefersDarkQuery = ''(prefers-color-scheme: dark)''"

subsection \<open>The host environment and React's memory\<close>

datatype access =
    GetItem string
  | SetItem string string
  | MatchMedia string
  | ClassListToggle string bool

record world =
  localStorage :: "string \<rightharpoonup> string"
  classList :: "string list"
  media :: "string \<Rightarrow> bool"
  trace :: "access list"
  stateCell :: "bool option"
  effectDeps :: "bool list option"

text \<open>
  \<^item> \<open>localStorage\<close>: the key-value store; \<^verbatim>\<open>getItem\<close> of a missing key is
    \<^verbatim>\<open>null\<close>, here \<open>None\<close>.
  \<^item> \<open>classList\<close>: the token list of \<^verbatim>\<open>document.body\<close>, in document order.
  \<^item> \<open>media\<close>: what \<^verbatim>\<open>window.matchMedia(q).matches\<close> is at the moment, per query.
  \<^item> \<open>trace\<close>: the host calls made so far, oldest first.
  \<^item> \<open>stateCell\<close>: the state React holds for \<^verbatim>\<open>useState\<close>; \<open>None\<close> until the
    first render has run the initializer.
  \<^item> \<open>effectDeps\<close>: the dependency array of the effect as last committed; \<open>None\<close>
    until the first commit.
\<close>

definition getItem :: "string \<Rightarrow> world \<Rightarrow> string option \<times> world" where
  "getItem k w = (localStorage w k, w\<lparr>trace := trace w @ [GetItem k]\<rparr>)"

definition setItem :: "string \<Rightarrow> string \<Rightarrow> world \<Rightarrow> world" where
  "setItem k v w =
     w\<lparr>localStorage := (localStorage w)(k \<mapsto> v), trace := trace w @ [SetItem k v]\<rparr>"

definition matchMedia :: "string \<Rightarrow> world \<Rightarrow> bool \<times> world" where
  "matchMedia q w = (media w q, w\<lparr>trace := trace w @ [MatchMedia q]\<rparr>)"

text \<open>
  \<^verbatim>\<open>classList.toggle(token, force)\<close> of the DOM: a present token stays when
  \<open>force\<close> is true and is removed otherwise; an absent token is appended when
  \<open>force\<close> is true and stays absent otherwise. The boolean it returns is dropped by
  the hook.
\<close>

definition classList_toggle :: "string \<Rightarrow> bool \<Rightarrow> world \<Rightarrow> world" where
  "classList_toggle tok force w =
     w\<lparr>classList :=
         (if tok \<in> set (classList w)
          then (if force then classList w else removeAll tok (classList w))
          else (if force then classList w @ [tok] else classList w)),
       trace := trace w @ [ClassListToggle tok force]\<rparr>"

subsection \<open>The two callbacks of the hook\<close>

text \<open>
  The function given to \<^verbatim>\<open>useState\<close>:
  \<^verbatim>\<open>if (localStorage.getItem(key) === 'true') return true;
  return window.matchMedia('(prefers-color-scheme: dark)').matches || false;\<close>
\<close>

definition initializer :: "world \<Rightarrow> bool \<times> world" where
  "initializer w =
     (let (item, w1) = getItem darkModePrefLocalStorageKey w in
      if item = Some ''true'' then (True, w1)
      else (let (m, w2) = matchMedia prefersDarkQuery w1 in (m \<or> False, w2)))"

text \<open>
  The function given to \<^verbatim>\<open>useEffect\<close>:
  \<^verbatim>\<open>document.body.classList.toggle(darkModeBodyClassName, isDarkTheme);
  localStorage.setItem(key, isDarkTheme ? 'true' : 'false');\<close>
\<close>

definition effect :: "bool \<Rightarrow> world \<Rightarrow> world" where
  "effect isDarkTheme w =
     setItem darkModePrefLocalStorageKey (if isDarkTheme then ''true'' else ''false'')
       (classList_toggle darkModeBodyClassName isDarkTheme w)"

subsection \<open>React's \<^verbatim>\<open>useState\<close> and \<^verbatim>\<open>useEffect\<close>\<close>

text \<open>
  \<^verbatim>\<open>useState(init)\<close> runs \<open>init\<close> on the first render only and returns the stored
  state on every later one. \<^verbatim>\<open>useEffect(f, deps)\<close> runs \<open>f\<close> when the render is
  committed, on the first render and on every later render whose dependency array differs
  from the one committed before. The hook body does nothing between \<^verbatim>\<open>useEffect\<close> and
  its \<^verbatim>\<open>return\<close>, so running the effect inside \<open>useEffect\<close> keeps the order of the
  host calls.
\<close>

definition useState :: "(world \<Rightarrow> bool \<times> world) \<Rightarrow> world \<Rightarrow> bool \<times> world" where
  "useState init w =
     (case stateCell w of
        Some b \<Rightarrow> (b, w)
      | None \<Rightarrow> (let (b, w1) = init w in (b, w1\<lparr>stateCell := Some b\<rparr>)))"

definition useEffect :: "(world \<Rightarrow> world) \<Rightarrow> bool list \<Rightarrow> world \<Rightarrow> world" where
  "useEffect f deps w =
     (if effectDeps w = Some deps then w else (f w)\<lparr>effectDeps := Some deps\<rparr>)"

subsection \<open>The hook\<close>

text \<open>
  One call of the hook body, that is one render. It returns the current boolean; the
  setter of the returned tuple is \<open>setIsDarkTheme\<close> below.
\<close>

definition useMLflowDarkTheme :: "world \<Rightarrow> bool \<times> world" where
  "useMLflowDarkTheme w =
     (let (isDarkTheme, w1) = useState initializer w;
          w2 = useEffect (effect isDarkTheme) [isDarkTheme] w1
      in (isDarkTheme, w2))"

text \<open>
  The setter has type \<^verbatim>\<open>React.Dispatch<React.SetStateAction<boolean>>\<close>: its argument
  is a boolean or a function from the previous boolean to the next one. A call of the
  setter only schedules an update; React applies it in the next render and commits the
  effect after that render.

  \<open>setIsDarkTheme a w\<close> is the world once that render is committed, for a call that is
  alone in its batch: the state is replaced by the action's result and the hook body
  runs again. It describes the component from commit to commit. Calls that share a
  batch are described by \<open>dispatchSetState\<close> and \<open>commit\<close> below, which keep the
  queue of scheduled actions. The setter exists only once a render has returned it; on a
  world that was never rendered it is the identity.
\<close>

datatype action = Direct bool | Updater "bool \<Rightarrow> bool"

fun applyAction :: "action \<Rightarrow> bool \<Rightarrow> bool" where
  "applyAction (Direct v) b = v"
| "applyAction (Updater f) b = f b"

definition setIsDarkTheme :: "action \<Rightarrow> world \<Rightarrow> world" where
  "setIsDarkTheme a w =
     (case stateCell w of
        None \<Rightarrow> w
      | Some b \<Rightarrow> snd (useMLflowDarkTheme (w\<lparr>stateCell := Some (applyAction a b)\<rparr>)))"

subsection \<open>Runs of the component\<close>

text \<open>
  A world before the first render, with nothing traced yet; the first render (the
  mount); and the events after it: a call of the setter with the commit it schedules,
  a render for another reason (the parent rendered), and the host changing the answer
  of a media query. Every event runs to its end, the commit of the effect included,
  before the next one starts: the UI thread serializes them. The host calls are taken
  not to fail, and nothing but the hook writes the store or the class list.
\<close>

definition unmounted :: "(string \<rightharpoonup> string) \<Rightarrow> string list \<Rightarrow> (string \<Rightarrow> bool) \<Rightarrow> world" where
  "unmounted st cl md =
     \<lparr>localStorage = st, classList = cl, media = md, trace = [],
      stateCell = None, effectDeps = None\<rparr>"

definition mount :: "(string \<rightharpoonup> string) \<Rightarrow> string list \<Rightarrow> (string \<Rightarrow> bool) \<Rightarrow> world" where
  "mount st cl md = snd (useMLflowDarkTheme (unmounted st cl md))"

datatype event = Set action | Render | MediaChange string bool

fun step :: "world \<Rightarrow> event \<Rightarrow> world" where
  "step w (Set a) = setIsDarkTheme a w"
| "step w Render = snd (useMLflowDarkTheme w)"
| "step w (MediaChange q b) = w\<lparr>media := (media w)(q := b)\<rparr>"

definition run :: "(string \<rightharpoonup> string) \<Rightarrow> string list \<Rightarrow> (string \<Rightarrow> bool) \<Rightarrow> event list \<Rightarrow> world" where
  "run st cl md evs = foldl step (mount st cl md) evs"

subsection \<open>Scheduled updates\<close>

text \<open>
  The same component with the queue React keeps for \<^verbatim>\<open>useState\<close>. A scheduled world
  is a world together with the actions the setter was called with since the last render,
  oldest first.

  \<^item> \<open>dispatchSetState\<close> is the function \<^verbatim>\<open>useState\<close> hands out, bound in the hook
    as \<^verbatim>\<open>setIsDarkTheme\<close>: it appends its argument to the queue and touches nothing
    else.
  \<^item> \<open>reduceQueue\<close> is what the next render's \<^verbatim>\<open>useState\<close> returns: the queued
    actions applied in call order, a boolean replacing the state, a function being
    applied to the state the earlier actions gave.
  \<^item> \<open>commit\<close> is that render and its commit: the state becomes the reduced one, the
    queue is emptied, and the hook body runs, the effect included. On a world never
    rendered it is the mount.
\<close>

type_synonym scheduled = "world \<times> action list"

definition reduceQueue :: "action list \<Rightarrow> bool \<Rightarrow> bool" where
  "reduceQueue q b = foldl (\<lambda>s a. applyAction a s) b q"

definition dispatchSetState :: "action \<Rightarrow> scheduled \<Rightarrow> scheduled" where
  "dispatchSetState a s =
     (case stateCell (fst s) of None \<Rightarrow> s | Some b \<Rightarrow> (fst s, snd s @ [a]))"

definition commit :: "scheduled \<Rightarrow> scheduled" where
  "commit s =
     (case stateCell (fst s) of
        None \<Rightarrow> (snd (useMLflowDarkTheme (fst s)), [])
      | Some b \<Rightarrow>
          (snd (useMLflowDarkTheme ((fst s)\<lparr>stateCell := Some (reduceQueue (snd s) b)\<rparr>)), []))"

text \<open>
  What can happen after the mount, one thing at a time: the application calls the
  setter, React renders and commits, the host changes the answer of a media query.
\<close>

datatype tick = Call action | Commit | HostMedia string bool

fun tickStep :: "scheduled \<Rightarrow> tick \<Rightarrow> scheduled" where
  "tickStep s (Call a) = dispatchSetState a s"
| "tickStep s Commit = commit s"
| "tickStep s (HostMedia x b) = ((fst s)\<lparr>media := (media (fst s))(x := b)\<rparr>, snd s)"

definition runTicks ::
    "(string \<rightharpoonup> string) \<Rightarrow> string list \<Rightarrow> (string \<Rightarrow> bool) \<Rightarrow> tick list \<Rightarrow> scheduled" where
  "runTicks st cl md ts = foldl tickStep (mount st cl md, []) ts"

subsection \<open>Notions the properties are stated with\<close>

text \<open>
  A world is \<open>synced\<close> when the hook has been rendered, the effect has been committed
  for the current boolean, the class is on the body exactly when the boolean is true,
  and the stored record is the boolean's string.
\<close>

definition synced :: "world \<Rightarrow> bool" where
  "synced w =
     (case stateCell w of
        None \<Rightarrow> False
      | Some b \<Rightarrow>
          effectDeps w = Some [b]
          \<and> (darkModeBodyClassName \<in> set (classList w)) = b
          \<and> localStorage w darkModePrefLocalStorageKey =
              Some (if b then ''true'' else ''false''))"

text \<open>The two host calls one run of the effect makes, in order.\<close>

definition effectCalls :: "bool \<Rightarrow> access list" where
  "effectCalls b =
     [ClassListToggle darkModeBodyClassName b,
      SetItem darkModePrefLocalStorageKey (if b then ''true'' else ''false'')]"

text \<open>The host calls the initializer makes: the second one only when the first did not
  find \<open>true\<close>.\<close>

definition initializerCalls :: "(string \<rightharpoonup> string) \<Rightarrow> access list" where
  "initializerCalls st =
     (if st darkModePrefLocalStorageKey = Some ''true''
      then [GetItem darkModePrefLocalStorageKey]
      else [GetItem darkModePrefLocalStorageKey, MatchMedia prefersDarkQuery])"

fun isWrite :: "access \<Rightarrow> bool" where
  "isWrite (SetItem k v) = True"
| "isWrite (ClassListToggle tok force) = True"
| "isWrite (GetItem k) = False"
| "isWrite (MatchMedia q) = False"

fun isMatchMedia :: "access \<Rightarrow> bool" where
  "isMatchMedia (MatchMedia q) = True"
| "isMatchMedia (GetItem k) = False"
| "isMatchMedia (SetItem k v) = False"
| "isMatchMedia (ClassListToggle tok force) = False"

text \<open>A storage write is \<open>literalWrite\<close> when it goes to the fixed key and stores one of
  the two literals; a call that is not a storage write passes.\<close>

fun literalWrite :: "access \<Rightarrow> bool" where
  "literalWrite (SetItem k v) =
     (k = darkModePrefLocalStorageKey \<and> (v = ''true'' \<or> v = ''false''))"
| "literalWrite (GetItem k) = True"
| "literalWrite (MatchMedia q) = True"
| "literalWrite (ClassListToggle tok force) = True"

fun isMediaChange :: "event \<Rightarrow> bool" where
  "isMediaChange (MediaChange q b) = True"
| "isMediaChange (Set a) = False"
| "isMediaChange Render = False"

definition controllerEvents :: "event list \<Rightarrow> event list" where
  "controllerEvents evs = filter (\<lambda>e. \<not> isMediaChange e) evs"

text \<open>What can be observed of a world: the current boolean, the store, the class list
  and the host calls made so far. The answers of the media queries are left out.\<close>

definition observe ::
    "world \<Rightarrow> bool option \<times> (string \<rightharpoonup> string) \<times> string list \<times> access list" where
  "observe w = (stateCell w, localStorage w, classList w, trace w)"

section \<open>Properties\<close>

subsection \<open>Helper facts\<close>

lemma unmounted_sel:
  "localStorage (unmounted st cl md) = st"
  "classList (unmounted st cl md) = cl"
  "media (unmounted st cl md) = md"
  "trace (unmounted st cl md) = []"
  "stateCell (unmounted st cl md) = None"
  "effectDeps (unmounted st cl md) = None"
  by (simp_all add: unmounted_def)

lemma initializer_eq:
  "initializer w =
     (localStorage w darkModePrefLocalStorageKey = Some ''true'' \<or> media w prefersDarkQuery,
      w\<lparr>trace := trace w @ initializerCalls (localStorage w)\<rparr>)"
  by (simp add: initializer_def getItem_def matchMedia_def initializerCalls_def)

lemma effect_eq:
  "effect b w =
     w\<lparr>classList :=
         (if darkModeBodyClassName \<in> set (classList w)
          then (if b then classList w else removeAll darkModeBodyClassName (classList w))
          else (if b then classList w @ [darkModeBodyClassName] else classList w)),
       localStorage :=
         (localStorage w)(darkModePrefLocalStorageKey \<mapsto> (if b then ''true'' else ''false'')),
       trace := trace w @ effectCalls b\<rparr>"
  by (simp add: effect_def setItem_def classList_toggle_def effectCalls_def)

lemma effect_sel:
  "stateCell (effect b w) = stateCell w"
  "effectDeps (effect b w) = effectDeps w"
  "media (effect b w) = media w"
  "trace (effect b w) = trace w @ effectCalls b"
  "localStorage (effect b w) =
     (localStorage w)(darkModePrefLocalStorageKey \<mapsto> (if b then ''true'' else ''false''))"
  "(darkModeBodyClassName \<in> set (classList (effect b w))) = b"
  by (simp_all add: effect_eq)

lemma render_again:
  "stateCell w = Some b \<Longrightarrow>
   useMLflowDarkTheme w =
     (b, if effectDeps w = Some [b] then w else (effect b w)\<lparr>effectDeps := Some [b]\<rparr>)"
  by (simp add: useMLflowDarkTheme_def useState_def useEffect_def)

lemma render_first:
  "stateCell w = None \<Longrightarrow>
   useMLflowDarkTheme w =
     (fst (initializer w),
      useEffect (effect (fst (initializer w))) [fst (initializer w)]
        ((snd (initializer w))\<lparr>stateCell := Some (fst (initializer w))\<rparr>))"
  by (simp add: useMLflowDarkTheme_def useState_def split: prod.splits)

lemma first_value:
  "fst (useMLflowDarkTheme (unmounted st cl md)) =
     (st darkModePrefLocalStorageKey = Some ''true'' \<or> md prefersDarkQuery)"
  by (simp add: render_first unmounted_sel initializer_eq)

lemma mount_eq:
  "mount st cl md =
     (effect (st darkModePrefLocalStorageKey = Some ''true'' \<or> md prefersDarkQuery)
        ((unmounted st cl md)
           \<lparr>trace := initializerCalls st,
            stateCell := Some (st darkModePrefLocalStorageKey = Some ''true'' \<or> md prefersDarkQuery)\<rparr>))
     \<lparr>effectDeps := Some [st darkModePrefLocalStorageKey = Some ''true'' \<or> md prefersDarkQuery]\<rparr>"
  by (simp add: mount_def render_first unmounted_sel initializer_eq useEffect_def)

lemma mount_sel:
  "stateCell (mount st cl md) =
     Some (st darkModePrefLocalStorageKey = Some ''true'' \<or> md prefersDarkQuery)"
  "effectDeps (mount st cl md) =
     Some [st darkModePrefLocalStorageKey = Some ''true'' \<or> md prefersDarkQuery]"
  "trace (mount st cl md) =
     initializerCalls st
       @ effectCalls (st darkModePrefLocalStorageKey = Some ''true'' \<or> md prefersDarkQuery)"
  "media (mount st cl md) = md"
  by (simp_all add: mount_eq effect_sel unmounted_sel)

lemma setter_eq:
  "stateCell w = Some b \<Longrightarrow>
   setIsDarkTheme a w =
     (if effectDeps w = Some [applyAction a b]
      then w\<lparr>stateCell := Some (applyAction a b)\<rparr>
      else (effect (applyAction a b) (w\<lparr>stateCell := Some (applyAction a b)\<rparr>))
             \<lparr>effectDeps := Some [applyAction a b]\<rparr>)"
  by (simp add: setIsDarkTheme_def render_again)

lemma synced_mount: "synced (mount st cl md)"
  by (simp add: synced_def mount_sel) (simp add: mount_eq effect_sel)

lemma synced_render: "synced w \<Longrightarrow> snd (useMLflowDarkTheme w) = w"
  by (auto simp: synced_def render_again split: option.splits)

lemma synced_setter_same:
  "synced w \<Longrightarrow> stateCell w = Some b \<Longrightarrow> applyAction a b = b \<Longrightarrow> setIsDarkTheme a w = w"
  by (simp add: synced_def setter_eq)

lemma synced_setter_change:
  "synced w \<Longrightarrow> stateCell w = Some b \<Longrightarrow> applyAction a b \<noteq> b \<Longrightarrow>
   setIsDarkTheme a w =
     (effect (applyAction a b) (w\<lparr>stateCell := Some (applyAction a b)\<rparr>))
       \<lparr>effectDeps := Some [applyAction a b]\<rparr>"
  by (simp add: synced_def setter_eq)

lemma synced_setter: "synced w \<Longrightarrow> synced (setIsDarkTheme a w)"
proof -
  assume s: "synced w"
  then obtain b where b: "stateCell w = Some b"
    by (auto simp: synced_def split: option.splits)
  show ?thesis
  proof (cases "applyAction a b = b")
    case True
    with s b show ?thesis by (simp add: synced_setter_same)
  next
    case False
    with s b show ?thesis
      by (simp add: synced_setter_change) (simp add: synced_def effect_sel)
  qed
qed

lemma synced_step: "synced w \<Longrightarrow> synced (step w ev)"
proof (cases ev)
  case (Set a)
  assume "synced w"
  with Set show ?thesis by (simp add: synced_setter)
next
  case Render
  assume "synced w"
  with Render show ?thesis by (simp add: synced_render)
next
  case (MediaChange q b)
  assume "synced w"
  with MediaChange show ?thesis by (simp add: synced_def split: option.splits)
qed

lemma synced_foldl: "synced w \<Longrightarrow> synced (foldl step w evs)"
  by (induction evs arbitrary: w) (simp_all add: synced_step)

lemma synced_run: "synced (run st cl md evs)"
  by (simp add: run_def synced_foldl synced_mount)

lemma synced_iff:
  "synced w \<longleftrightarrow>
     (\<exists>b. stateCell w = Some b \<and> effectDeps w = Some [b]
        \<and> (darkModeBodyClassName \<in> set (classList w)) = b
        \<and> localStorage w darkModePrefLocalStorageKey = Some (if b then ''true'' else ''false''))"
  by (auto simp: synced_def split: option.splits)

subsection \<open>Initial value\<close>

text \<open>
  C1. The value the first render returns and stores in the state: it is true when the
  stored record is the string \<open>true\<close>; in every other case (another string such as
  \<open>false\<close>, or no record) it is the answer of the media query. In particular a
  stored \<open>false\<close> with a dark-preferring host gives true.
\<close>

theorem initial_value_priority:
  "(st darkModePrefLocalStorageKey = Some ''true'' \<longrightarrow>
      fst (useMLflowDarkTheme (unmounted st cl md)) = True)
   \<and> (st darkModePrefLocalStorageKey \<noteq> Some ''true'' \<longrightarrow>
      fst (useMLflowDarkTheme (unmounted st cl md)) = md prefersDarkQuery)
   \<and> (st darkModePrefLocalStorageKey = Some ''false'' \<and> md prefersDarkQuery \<longrightarrow>
      fst (useMLflowDarkTheme (unmounted st cl md)) = True)
   \<and> stateCell (mount st cl md) = Some (fst (useMLflowDarkTheme (unmounted st cl md)))"
  by (simp add: first_value mount_sel)

theorem initial_value_priority_witness:
  "fst (useMLflowDarkTheme
      (unmounted [darkModePrefLocalStorageKey \<mapsto> ''true''] [] (\<lambda>q. False))) = True
   \<and> fst (useMLflowDarkTheme (unmounted Map.empty [] (\<lambda>q. False))) = False
   \<and> fst (useMLflowDarkTheme (unmounted Map.empty [] (\<lambda>q. True))) = True
   \<and> fst (useMLflowDarkTheme
      (unmounted [darkModePrefLocalStorageKey \<mapsto> ''false''] [] (\<lambda>q. True))) = True
   \<and> fst (useMLflowDarkTheme
      (unmounted [darkModePrefLocalStorageKey \<mapsto> ''false''] [] (\<lambda>q. False))) = False"
  using initial_value_priority [of "[darkModePrefLocalStorageKey \<mapsto> ''true'']" "[]" "\<lambda>q. False"]
        initial_value_priority [of "Map.empty" "[]" "\<lambda>q. False"]
        initial_value_priority [of "Map.empty" "[]" "\<lambda>q. True"]
        initial_value_priority [of "[darkModePrefLocalStorageKey \<mapsto> ''false'']" "[]" "\<lambda>q. True"]
        initial_value_priority [of "[darkModePrefLocalStorageKey \<mapsto> ''false'']" "[]" "\<lambda>q. False"]
  by simp

subsection \<open>Facts about scheduled updates\<close>

lemma reduceQueue_snoc: "reduceQueue (q @ [a]) b = applyAction a (reduceQueue q b)"
  by (simp add: reduceQueue_def)

lemma reduceQueue_Nil: "reduceQueue [] b = b"
  by (simp add: reduceQueue_def)

lemma commit_mounted:
  "stateCell w = Some b \<Longrightarrow>
   commit (w, q) = (setIsDarkTheme (Updater (reduceQueue q)) w, [])"
  by (simp add: commit_def setIsDarkTheme_def)

lemma dispatch_mounted: "stateCell w = Some b \<Longrightarrow> dispatchSetState a (w, q) = (w, q @ [a])"
  by (simp add: dispatchSetState_def)

lemma synced_tick: "synced (fst s) \<Longrightarrow> synced (fst (tickStep s t))"
proof -
  assume s: "synced (fst s)"
  obtain w q where wq: "s = (w, q)" by (cases s)
  from s wq obtain b where b: "stateCell w = Some b" by (auto simp: synced_iff)
  show ?thesis
  proof (cases t)
    case (Call a)
    then show ?thesis using s wq by (simp add: dispatch_mounted [OF b])
  next
    case Commit
    then show ?thesis using s wq by (simp add: commit_mounted [OF b] synced_setter)
  next
    case (HostMedia x c)
    then show ?thesis using s wq by (simp add: synced_def split: option.splits)
  qed
qed

lemma synced_ticks: "synced (fst s) \<Longrightarrow> synced (fst (foldl tickStep s ts))"
  by (induction ts arbitrary: s) (simp_all add: synced_tick)

lemma synced_runTicks: "synced (fst (runTicks st cl md ts))"
  by (simp add: runTicks_def synced_ticks synced_mount)

lemma commit_synced:
  assumes "synced w" and "stateCell w = Some b"
  shows "stateCell (fst (commit (w, q))) = Some (reduceQueue q b)"
    and "trace (fst (commit (w, q))) =
           trace w @ (if reduceQueue q b = b then [] else effectCalls (reduceQueue q b))"
    and "synced (fst (commit (w, q)))"
    and "snd (commit (w, q)) = []"
proof -
  let ?a = "Updater (reduceQueue q)"
  have c: "commit (w, q) = (setIsDarkTheme ?a w, [])" by (rule commit_mounted [OF assms(2)])
  show "stateCell (fst (commit (w, q))) = Some (reduceQueue q b)"
    unfolding c by (simp add: setter_eq [OF assms(2)] effect_sel)
  show "trace (fst (commit (w, q))) =
           trace w @ (if reduceQueue q b = b then [] else effectCalls (reduceQueue q b))"
  proof (cases "reduceQueue q b = b")
    case True
    then have "applyAction ?a b = b" by simp
    from synced_setter_same [OF assms this] show ?thesis unfolding c using True by simp
  next
    case False
    then have "applyAction ?a b \<noteq> b" by simp
    from synced_setter_change [OF assms this] show ?thesis
      unfolding c using False by (simp add: effect_sel)
  qed
  show "synced (fst (commit (w, q)))" unfolding c by (simp add: synced_setter [OF assms(1)])
  show "snd (commit (w, q)) = []" unfolding c by simp
qed

subsection \<open>The synchronization effect\<close>

text \<open>
  C2, as the code has it. The effect runs at the mount, and after the mount at every
  commit whose boolean differs from the one committed before, and at no other commit:
  the mount's trace is the initializer's reads followed by the effect's two calls for
  the initial value, and a commit on a reachable scheduled world appends exactly the
  effect's two calls for the new boolean when the queued actions change the boolean, and
  nothing when they do not. After the effect for \<open>b\<close> the class is on the body exactly
  when \<open>b\<close> is true and the stored record is \<open>true\<close> or \<open>false\<close> accordingly. Hence
  once the setter has been called with true and the render this schedules is committed,
  no other call of the setter coming in between, the body carries the class and the
  store holds \<open>true\<close>; with false, the class is absent and the store holds \<open>false\<close>.
  The call itself changes nothing but the queue.
\<close>

theorem effect_at_mount_and_changed_commit:
  "trace (mount st cl md) =
     initializerCalls st @ effectCalls (fst (useMLflowDarkTheme (unmounted st cl md)))
   \<and> (stateCell (fst (runTicks st cl md ts)) = Some b \<longrightarrow>
        stateCell (fst (commit (runTicks st cl md ts))) =
          Some (reduceQueue (snd (runTicks st cl md ts)) b)
        \<and> trace (fst (commit (runTicks st cl md ts))) =
            trace (fst (runTicks st cl md ts))
              @ (if reduceQueue (snd (runTicks st cl md ts)) b = b then []
                 else effectCalls (reduceQueue (snd (runTicks st cl md ts)) b)))
   \<and> (darkModeBodyClassName \<in> set (classList (effect b' w))) = b'
   \<and> localStorage (effect b' w) darkModePrefLocalStorageKey =
        Some (if b' then ''true'' else ''false'')
   \<and> fst (dispatchSetState a (runTicks st cl md ts)) = fst (runTicks st cl md ts)
   \<and> darkModeBodyClassName
        \<in> set (classList (fst (commit (dispatchSetState (Direct True) (runTicks st cl md ts)))))
   \<and> localStorage (fst (commit (dispatchSetState (Direct True) (runTicks st cl md ts))))
        darkModePrefLocalStorageKey = Some ''true''
   \<and> darkModeBodyClassName
        \<notin> set (classList (fst (commit (dispatchSetState (Direct False) (runTicks st cl md ts)))))
   \<and> localStorage (fst (commit (dispatchSetState (Direct False) (runTicks st cl md ts))))
        darkModePrefLocalStorageKey = Some ''false''"
proof -
  obtain w q where wq: "runTicks st cl md ts = (w, q)" by (cases "runTicks st cl md ts")
  have s: "synced w" using synced_runTicks [of st cl md ts] by (simp add: wq)
  then obtain c where c: "stateCell w = Some c" by (auto simp: synced_iff)
  have change: "stateCell w = Some b \<longrightarrow>
        stateCell (fst (commit (w, q))) = Some (reduceQueue q b)
        \<and> trace (fst (commit (w, q))) =
            trace w @ (if reduceQueue q b = b then [] else effectCalls (reduceQueue q b))"
    using commit_synced(1,2) [OF s] by blast
  have call: "fst (dispatchSetState a (w, q)) = w" by (simp add: dispatch_mounted [OF c])
  have after: "\<And>v. stateCell (fst (commit (dispatchSetState (Direct v) (w, q)))) = Some v
      \<and> synced (fst (commit (dispatchSetState (Direct v) (w, q))))"
  proof -
    fix v
    have d: "dispatchSetState (Direct v) (w, q) = (w, q @ [Direct v])"
      by (rule dispatch_mounted [OF c])
    have "stateCell (fst (commit (w, q @ [Direct v]))) = Some (reduceQueue (q @ [Direct v]) c)"
      by (rule commit_synced(1) [OF s c])
    moreover have "synced (fst (commit (w, q @ [Direct v])))"
      by (rule commit_synced(3) [OF s c])
    ultimately show "stateCell (fst (commit (dispatchSetState (Direct v) (w, q)))) = Some v
      \<and> synced (fst (commit (dispatchSetState (Direct v) (w, q))))"
      unfolding d by (simp add: reduceQueue_snoc)
  qed
  have t: "darkModeBodyClassName
        \<in> set (classList (fst (commit (dispatchSetState (Direct True) (w, q)))))
      \<and> localStorage (fst (commit (dispatchSetState (Direct True) (w, q))))
        darkModePrefLocalStorageKey = Some ''true''"
    using after [of True] by (auto simp: synced_iff)
  have f: "darkModeBodyClassName
        \<notin> set (classList (fst (commit (dispatchSetState (Direct False) (w, q)))))
      \<and> localStorage (fst (commit (dispatchSetState (Direct False) (w, q))))
        darkModePrefLocalStorageKey = Some ''false''"
    using after [of False] by (auto simp: synced_iff)
  have m: "trace (mount st cl md) =
     initializerCalls st @ effectCalls (fst (useMLflowDarkTheme (unmounted st cl md)))"
    by (simp add: mount_sel first_value)
  have e: "(darkModeBodyClassName \<in> set (classList (effect b' w))) = b'
      \<and> localStorage (effect b' w) darkModePrefLocalStorageKey =
        Some (if b' then ''true'' else ''false'')"
    by (simp add: effect_sel)
  show ?thesis
    unfolding wq using m change call t f by (simp add: effect_sel)
qed

theorem effect_at_mount_and_changed_commit_witness:
  "stateCell (fst (runTicks Map.empty [] (\<lambda>q. False) [Call (Direct True)])) = Some False
   \<and> snd (runTicks Map.empty [] (\<lambda>q. False) [Call (Direct True)]) = [Direct True]
   \<and> stateCell (fst (commit (runTicks Map.empty [] (\<lambda>q. False) [Call (Direct True)]))) =
       Some True
   \<and> trace (fst (commit (runTicks Map.empty [] (\<lambda>q. False) [Call (Direct True)]))) =
       [GetItem darkModePrefLocalStorageKey, MatchMedia prefersDarkQuery,
        ClassListToggle darkModeBodyClassName False,
        SetItem darkModePrefLocalStorageKey ''false'',
        ClassListToggle darkModeBodyClassName True,
        SetItem darkModePrefLocalStorageKey ''true'']"
proof -
  let ?s = "runTicks Map.empty [] (\<lambda>q. False) [Call (Direct True)]"
  have r: "?s = (mount Map.empty [] (\<lambda>q. False), [Direct True])"
    by (simp add: runTicks_def dispatchSetState_def mount_sel)
  have h: "stateCell (fst ?s) = Some False" by (simp add: r mount_sel)
  from h effect_at_mount_and_changed_commit
      [of Map.empty "[]" "\<lambda>q. False" "[Call (Direct True)]" False True
          "unmounted Map.empty [] (\<lambda>q. False)" "Direct True"]
  have "stateCell (fst (commit ?s)) = Some (reduceQueue (snd ?s) False)
      \<and> trace (fst (commit ?s)) =
          trace (fst ?s) @ (if reduceQueue (snd ?s) False = False then []
                            else effectCalls (reduceQueue (snd ?s) False))"
    by blast
  then show ?thesis
    using h by (simp add: r reduceQueue_def mount_sel initializerCalls_def effectCalls_def)
qed

text \<open>
  The claim as worded, that after the setter is called with true the body carries the
  class and the store holds \<open>true\<close>, fails when another call follows in the same
  batch. Mounted on a light-preferring host with an empty store, the setter is called
  with true and then with false before React renders: the class is absent and the store
  holds \<open>false\<close> after the first call, after the second call and after the commit, and
  the commit makes no host call, the boolean being false as before.
\<close>

theorem batched_true_then_false_never_dark:
  "darkModeBodyClassName \<notin> set (classList (fst
      (runTicks Map.empty [] (\<lambda>q. False) [Call (Direct True)])))
   \<and> localStorage (fst (runTicks Map.empty [] (\<lambda>q. False) [Call (Direct True)]))
       darkModePrefLocalStorageKey = Some ''false''
   \<and> darkModeBodyClassName \<notin> set (classList (fst
      (runTicks Map.empty [] (\<lambda>q. False) [Call (Direct True), Call (Direct False)])))
   \<and> darkModeBodyClassName \<notin> set (classList (fst
      (runTicks Map.empty [] (\<lambda>q. False) [Call (Direct True), Call (Direct False), Commit])))
   \<and> localStorage (fst
      (runTicks Map.empty [] (\<lambda>q. False) [Call (Direct True), Call (Direct False), Commit]))
       darkModePrefLocalStorageKey = Some ''false''
   \<and> trace (fst
      (runTicks Map.empty [] (\<lambda>q. False) [Call (Direct True), Call (Direct False), Commit])) =
       trace (mount Map.empty [] (\<lambda>q. False))
   \<and> trace (mount Map.empty [] (\<lambda>q. False)) =
       [GetItem darkModePrefLocalStorageKey, MatchMedia prefersDarkQuery,
        ClassListToggle darkModeBodyClassName False,
        SetItem darkModePrefLocalStorageKey ''false'']"
proof -
  let ?w = "mount Map.empty [] (\<lambda>q. False)"
  have c: "stateCell ?w = Some False" by (simp add: mount_sel)
  have s: "synced ?w" by (rule synced_mount)
  have cl: "darkModeBodyClassName \<notin> set (classList ?w)"
    and ls: "localStorage ?w darkModePrefLocalStorageKey = Some ''false''"
    using s c by (auto simp: synced_iff)
  have r1: "runTicks Map.empty [] (\<lambda>q. False) [Call (Direct True)] = (?w, [Direct True])"
    by (simp add: runTicks_def dispatch_mounted [OF c])
  have r2: "runTicks Map.empty [] (\<lambda>q. False) [Call (Direct True), Call (Direct False)] =
      (?w, [Direct True, Direct False])"
    by (simp add: runTicks_def dispatch_mounted [OF c])
  have r3: "runTicks Map.empty [] (\<lambda>q. False) [Call (Direct True), Call (Direct False), Commit] =
      commit (?w, [Direct True, Direct False])"
    by (simp add: runTicks_def dispatch_mounted [OF c])
  have q: "reduceQueue [Direct True, Direct False] False = False"
    by (simp add: reduceQueue_def)
  have t3: "trace (fst (commit (?w, [Direct True, Direct False]))) = trace ?w"
    using commit_synced(2) [OF s c, of "[Direct True, Direct False]"] by (simp add: q)
  have s3: "synced (fst (commit (?w, [Direct True, Direct False])))"
    by (rule commit_synced(3) [OF s c])
  have c3: "stateCell (fst (commit (?w, [Direct True, Direct False]))) = Some False"
    using commit_synced(1) [OF s c, of "[Direct True, Direct False]"] by (simp add: q)
  have cl3: "darkModeBodyClassName \<notin> set (classList (fst (commit (?w, [Direct True, Direct False]))))"
    and ls3: "localStorage (fst (commit (?w, [Direct True, Direct False])))
       darkModePrefLocalStorageKey = Some ''false''"
    using s3 c3 by (auto simp: synced_iff)
  have tm: "trace ?w =
       [GetItem darkModePrefLocalStorageKey, MatchMedia prefersDarkQuery,
        ClassListToggle darkModeBodyClassName False,
        SetItem darkModePrefLocalStorageKey ''false'']"
    by (simp add: mount_sel initializerCalls_def effectCalls_def)
  show ?thesis
    unfolding r1 r2 r3 using cl ls cl3 ls3 t3 tm by simp
qed

subsection \<open>The invariant\<close>

text \<open>
  C3. After the mount and after every later event (a setter call, a render, a change of
  the host's media answer) the world is synced: the class is on the body exactly when
  the in-memory boolean is true, and the stored record is the boolean's string. Every
  event keeps a synced world synced, and an event that changes the boolean overwrites
  the record, its last host call being the write of the new boolean's string.
\<close>

theorem display_and_store_follow_value:
  "(\<exists>b. stateCell (run st cl md evs) = Some b
        \<and> (darkModeBodyClassName \<in> set (classList (run st cl md evs))) = b
        \<and> localStorage (run st cl md evs) darkModePrefLocalStorageKey =
             Some (if b then ''true'' else ''false''))
   \<and> synced (mount st cl md)
   \<and> (synced w \<longrightarrow> synced (step w ev))
   \<and> (synced w \<and> stateCell w = Some b0 \<and> stateCell (step w ev) = Some b1 \<and> b1 \<noteq> b0 \<longrightarrow>
        trace (step w ev) = trace w @ effectCalls b1
        \<and> last (trace (step w ev)) =
             SetItem darkModePrefLocalStorageKey (if b1 then ''true'' else ''false''))"
proof -
  have reach: "\<exists>b. stateCell (run st cl md evs) = Some b
        \<and> (darkModeBodyClassName \<in> set (classList (run st cl md evs))) = b
        \<and> localStorage (run st cl md evs) darkModePrefLocalStorageKey =
             Some (if b then ''true'' else ''false'')"
    using synced_run [of st cl md evs] by (auto simp: synced_iff)
  have change: "synced w \<and> stateCell w = Some b0 \<and> stateCell (step w ev) = Some b1 \<and> b1 \<noteq> b0 \<longrightarrow>
        trace (step w ev) = trace w @ effectCalls b1
        \<and> last (trace (step w ev)) =
             SetItem darkModePrefLocalStorageKey (if b1 then ''true'' else ''false'')"
  proof (cases ev)
    case (Set a)
    show ?thesis
    proof (cases "applyAction a b0 = b0")
      case True
      then show ?thesis using Set by (auto simp: synced_setter_same)
    next
      case False
      then show ?thesis using Set
        by (auto simp: synced_setter_change effect_sel effectCalls_def)
    qed
  next
    case Render
    then show ?thesis by (auto simp: synced_render)
  next
    case (MediaChange q b)
    then show ?thesis by auto
  qed
  show ?thesis
    using reach change synced_mount [of st cl md] synced_step [of w ev] by blast
qed

theorem display_and_store_follow_value_witness:
  "synced (mount Map.empty [] (\<lambda>q. False))
   \<and> synced (step (mount Map.empty [] (\<lambda>q. False)) (Set (Direct True)))
   \<and> stateCell (mount Map.empty [] (\<lambda>q. False)) = Some False
   \<and> stateCell (step (mount Map.empty [] (\<lambda>q. False)) (Set (Direct True))) = Some True
   \<and> trace (step (mount Map.empty [] (\<lambda>q. False)) (Set (Direct True))) =
       trace (mount Map.empty [] (\<lambda>q. False)) @ effectCalls True
   \<and> last (trace (step (mount Map.empty [] (\<lambda>q. False)) (Set (Direct True)))) =
       SetItem darkModePrefLocalStorageKey ''true''"
proof -
  let ?w = "mount Map.empty [] (\<lambda>q. False)"
  have s: "synced ?w" by (rule synced_mount)
  have c0: "stateCell ?w = Some False" by (simp add: mount_sel)
  have c1: "stateCell (step ?w (Set (Direct True))) = Some True"
    by (simp add: setter_eq [OF c0] effect_sel)
  have ne: "True \<noteq> False" by simp
  from display_and_store_follow_value
      [of Map.empty "[]" "\<lambda>q. False" "[]" ?w "Set (Direct True)" False True] s c0 c1 ne
  have "synced (step ?w (Set (Direct True)))
      \<and> trace (step ?w (Set (Direct True))) = trace ?w @ effectCalls True
      \<and> last (trace (step ?w (Set (Direct True)))) =
           SetItem darkModePrefLocalStorageKey (if True then ''true'' else ''false'')"
    by blast
  then show ?thesis using s c0 c1 by (simp add: effectCalls_def)
qed

subsection \<open>Idempotence of the setter\<close>

text \<open>
  C4. Calling the setter with the same boolean twice in a row: the second call changes
  nothing. The world after the second call is the world after the first one, for every
  world and so for every reachable one; in particular the store and the class list are
  the same and the second call makes no host call.
\<close>

theorem setter_twice_same_value:
  "setIsDarkTheme (Direct v) (setIsDarkTheme (Direct v) w) = setIsDarkTheme (Direct v) w
   \<and> localStorage (setIsDarkTheme (Direct v) (setIsDarkTheme (Direct v) (run st cl md evs))) =
       localStorage (setIsDarkTheme (Direct v) (run st cl md evs))
   \<and> classList (setIsDarkTheme (Direct v) (setIsDarkTheme (Direct v) (run st cl md evs))) =
       classList (setIsDarkTheme (Direct v) (run st cl md evs))"
proof -
  have twice: "\<And>u. setIsDarkTheme (Direct v) (setIsDarkTheme (Direct v) u) =
      setIsDarkTheme (Direct v) u"
  proof -
    fix u
    show "setIsDarkTheme (Direct v) (setIsDarkTheme (Direct v) u) = setIsDarkTheme (Direct v) u"
    proof (cases "stateCell u")
      case None
      then show ?thesis by (simp add: setIsDarkTheme_def)
    next
      case (Some b)
      let ?u1 = "setIsDarkTheme (Direct v) u"
      have c: "stateCell ?u1 = Some v" using Some by (simp add: setter_eq effect_sel)
      have d: "effectDeps ?u1 = Some [v]" using Some by (simp add: setter_eq effect_sel)
      have "setIsDarkTheme (Direct v) ?u1 = ?u1\<lparr>stateCell := Some v\<rparr>"
        using c d by (simp add: setter_eq)
      also have "\<dots> = ?u1" using c by (cases ?u1) simp
      finally show ?thesis .
    qed
  qed
  show ?thesis by (simp add: twice)
qed

subsection \<open>The two forms of the setter\<close>

text \<open>
  C5, as the code has it. On a reachable scheduled world whose boolean is \<open>b\<close>, a call
  of the setter, with a boolean or with an updater, appends its argument to the queue
  and changes nothing else. At the next commit the queued arguments are applied in call
  order: an updater \<open>f\<close> called last makes the boolean \<open>f\<close> of what the calls queued
  before it give from \<open>b\<close>, so \<open>f b\<close> when it is alone in its batch, and a boolean
  \<open>v\<close> called last makes it \<open>v\<close>. The effect is keyed on the boolean
  (\<^verbatim>\<open>useEffect(..., [isDarkTheme])\<close>): at that commit it runs, once, exactly when the
  committed boolean differs from \<open>b\<close>, whatever the number of calls in the batch; when
  it is the same, the commit makes no host call. Either way the world is synced
  afterwards.
\<close>

theorem setter_queues_commit_applies:
  "stateCell (fst (runTicks st cl md ts)) = Some b \<Longrightarrow>
     dispatchSetState a (runTicks st cl md ts) =
       (fst (runTicks st cl md ts), snd (runTicks st cl md ts) @ [a])
   \<and> stateCell (fst (commit (dispatchSetState (Updater f) (runTicks st cl md ts)))) =
       Some (f (reduceQueue (snd (runTicks st cl md ts)) b))
   \<and> stateCell (fst (commit (dispatchSetState (Direct v) (runTicks st cl md ts)))) = Some v
   \<and> (snd (runTicks st cl md ts) = [] \<longrightarrow>
        stateCell (fst (commit (dispatchSetState (Updater f) (runTicks st cl md ts)))) =
          Some (f b))
   \<and> trace (fst (commit (dispatchSetState a (runTicks st cl md ts)))) =
       trace (fst (runTicks st cl md ts))
         @ (if applyAction a (reduceQueue (snd (runTicks st cl md ts)) b) = b then []
            else effectCalls (applyAction a (reduceQueue (snd (runTicks st cl md ts)) b)))
   \<and> synced (fst (commit (dispatchSetState a (runTicks st cl md ts))))"
proof -
  assume c0: "stateCell (fst (runTicks st cl md ts)) = Some b"
  obtain w q where wq: "runTicks st cl md ts = (w, q)" by (cases "runTicks st cl md ts")
  have c: "stateCell w = Some b" using c0 by (simp add: wq)
  have s: "synced w" using synced_runTicks [of st cl md ts] by (simp add: wq)
  have d: "\<And>x. dispatchSetState x (w, q) = (w, q @ [x])"
    by (rule dispatch_mounted [OF c])
  have val: "\<And>x. stateCell (fst (commit (w, q @ [x]))) = Some (applyAction x (reduceQueue q b))"
    using commit_synced(1) [OF s c] by (simp add: reduceQueue_snoc)
  have tr: "trace (fst (commit (w, q @ [a]))) =
      trace w @ (if applyAction a (reduceQueue q b) = b then []
                 else effectCalls (applyAction a (reduceQueue q b)))"
    using commit_synced(2) [OF s c, of "q @ [a]"] by (simp add: reduceQueue_snoc)
  have sy: "synced (fst (commit (w, q @ [a])))"
    by (rule commit_synced(3) [OF s c])
  have alone: "q = [] \<longrightarrow> stateCell (fst (commit (w, q @ [Updater f]))) = Some (f b)"
    using val [of "Updater f"] by (auto simp: reduceQueue_Nil)
  show ?thesis
    unfolding wq d
    using val [of "Updater f"] val [of "Direct v"] tr sy alone
    by simp
qed

theorem setter_queues_commit_applies_witness:
  "stateCell (fst (runTicks Map.empty [] (\<lambda>q. False) [])) = Some False
   \<and> snd (runTicks Map.empty [] (\<lambda>q. False) []) = []
   \<and> dispatchSetState (Updater Not) (runTicks Map.empty [] (\<lambda>q. False) []) =
       (mount Map.empty [] (\<lambda>q. False), [Updater Not])
   \<and> stateCell (fst (commit (dispatchSetState (Updater Not)
       (runTicks Map.empty [] (\<lambda>q. False) [])))) = Some True
   \<and> stateCell (fst (commit (dispatchSetState (Direct True)
       (runTicks Map.empty [] (\<lambda>q. False) [])))) = Some True
   \<and> trace (fst (commit (dispatchSetState (Updater Not)
       (runTicks Map.empty [] (\<lambda>q. False) [])))) =
       trace (mount Map.empty [] (\<lambda>q. False)) @ effectCalls True"
proof -
  let ?s = "runTicks Map.empty [] (\<lambda>q. False) []"
  have r: "?s = (mount Map.empty [] (\<lambda>q. False), [])" by (simp add: runTicks_def)
  have c: "stateCell (fst ?s) = Some False" by (simp add: r mount_sel)
  have q: "snd ?s = []" by (simp add: r)
  have fs: "fst ?s = mount Map.empty [] (\<lambda>q. False)" by (simp add: r)
  note th = setter_queues_commit_applies [OF c, of "Updater Not" Not True]
  have d: "dispatchSetState (Updater Not) ?s = (fst ?s, snd ?s @ [Updater Not])"
    using th by blast
  have u: "stateCell (fst (commit (dispatchSetState (Updater Not) ?s))) =
      Some (Not (reduceQueue (snd ?s) False))"
    using th by blast
  have v: "stateCell (fst (commit (dispatchSetState (Direct True) ?s))) = Some True"
    using th by blast
  have t: "trace (fst (commit (dispatchSetState (Updater Not) ?s))) =
      trace (fst ?s)
        @ (if applyAction (Updater Not) (reduceQueue (snd ?s) False) = False then []
           else effectCalls (applyAction (Updater Not) (reduceQueue (snd ?s) False)))"
    using th by blast
  have d': "dispatchSetState (Updater Not) ?s = (mount Map.empty [] (\<lambda>q. False), [Updater Not])"
    using d by (simp add: fs q)
  have u': "stateCell (fst (commit (dispatchSetState (Updater Not) ?s))) = Some True"
    using u by (simp add: q reduceQueue_Nil)
  have t': "trace (fst (commit (dispatchSetState (Updater Not) ?s))) =
      trace (mount Map.empty [] (\<lambda>q. False)) @ effectCalls True"
    using t by (simp add: q fs reduceQueue_Nil)
  from c q d' u' v t' show ?thesis by blast
qed

text \<open>
  The claim as worded, that the effect is triggered by every setter call, fails where
  the new boolean equals the current one: mounted on a dark-preferring host the boolean
  is true, and the setter called with true, or with the identity updater, followed by
  the commit of the render it schedules, makes no host call at all.
\<close>

theorem setter_same_value_runs_no_effect:
  "stateCell (mount Map.empty [] (\<lambda>q. True)) = Some True
   \<and> stateCell (fst (runTicks Map.empty [] (\<lambda>q. True) [Call (Direct True), Commit])) =
       Some True
   \<and> trace (fst (runTicks Map.empty [] (\<lambda>q. True) [Call (Direct True), Commit])) =
       trace (mount Map.empty [] (\<lambda>q. True))
   \<and> trace (fst (runTicks Map.empty [] (\<lambda>q. True) [Call (Updater (\<lambda>b. b)), Commit])) =
       trace (mount Map.empty [] (\<lambda>q. True))
   \<and> trace (fst (runTicks Map.empty [] (\<lambda>q. True) [Call (Direct True), Commit])) \<noteq>
       trace (mount Map.empty [] (\<lambda>q. True)) @ effectCalls True
   \<and> trace (setIsDarkTheme (Direct True) (mount Map.empty [] (\<lambda>q. True))) =
       trace (mount Map.empty [] (\<lambda>q. True))
   \<and> trace (setIsDarkTheme (Updater (\<lambda>b. b)) (mount Map.empty [] (\<lambda>q. True))) =
       trace (mount Map.empty [] (\<lambda>q. True))"
proof -
  let ?w = "mount Map.empty [] (\<lambda>q. True)"
  have c: "stateCell ?w = Some True" by (simp add: mount_sel)
  have d: "effectDeps ?w = Some [True]" by (simp add: mount_sel)
  have s: "synced ?w" by (rule synced_mount)
  have a: "setIsDarkTheme (Direct True) ?w = ?w\<lparr>stateCell := Some True\<rparr>"
    by (simp add: setter_eq [OF c] d)
  have b: "setIsDarkTheme (Updater (\<lambda>b. b)) ?w = ?w\<lparr>stateCell := Some True\<rparr>"
    by (simp add: setter_eq [OF c] d)
  have r1: "runTicks Map.empty [] (\<lambda>q. True) [Call (Direct True), Commit] =
      commit (?w, [Direct True])"
    by (simp add: runTicks_def dispatch_mounted [OF c])
  have r2: "runTicks Map.empty [] (\<lambda>q. True) [Call (Updater (\<lambda>b. b)), Commit] =
      commit (?w, [Updater (\<lambda>b. b)])"
    by (simp add: runTicks_def dispatch_mounted [OF c])
  have t1: "trace (fst (commit (?w, [Direct True]))) = trace ?w"
    using commit_synced(2) [OF s c, of "[Direct True]"] by (simp add: reduceQueue_def)
  have t2: "trace (fst (commit (?w, [Updater (\<lambda>b. b)]))) = trace ?w"
    using commit_synced(2) [OF s c, of "[Updater (\<lambda>b. b)]"] by (simp add: reduceQueue_def)
  have c1: "stateCell (fst (commit (?w, [Direct True]))) = Some True"
    using commit_synced(1) [OF s c, of "[Direct True]"] by (simp add: reduceQueue_def)
  show ?thesis
    unfolding r1 r2 t1 t2 c1 by (simp add: a b c effectCalls_def)
qed

text \<open>
  Two toggles in one batch: each call hands the boolean's negation on, the commit finds
  the boolean it started from, and the trace stays the mount's four calls.
\<close>

lemma batched_toggles_run_no_effect:
  "trace (fst (runTicks Map.empty [] (\<lambda>q. True)
      [Call (Updater Not), Call (Updater Not), Commit])) =
     trace (mount Map.empty [] (\<lambda>q. True))
   \<and> length (trace (mount Map.empty [] (\<lambda>q. True))) = 4"
proof -
  let ?w = "mount Map.empty [] (\<lambda>q. True)"
  have c: "stateCell ?w = Some True" by (simp add: mount_sel)
  have s: "synced ?w" by (rule synced_mount)
  have r: "runTicks Map.empty [] (\<lambda>q. True) [Call (Updater Not), Call (Updater Not), Commit] =
      commit (?w, [Updater Not, Updater Not])"
    by (simp add: runTicks_def dispatch_mounted [OF c])
  have t: "trace (fst (commit (?w, [Updater Not, Updater Not]))) = trace ?w"
    using commit_synced(2) [OF s c, of "[Updater Not, Updater Not]"]
    by (simp add: reduceQueue_def)
  show ?thesis
    unfolding r t by (simp add: mount_sel initializerCalls_def effectCalls_def)
qed

subsection \<open>What is written to the store\<close>

lemma trace_step_literal:
  "list_all literalWrite (trace w) \<Longrightarrow> list_all literalWrite (trace (step w ev))"
  by (cases ev)
    (auto simp: setIsDarkTheme_def useMLflowDarkTheme_def useState_def useEffect_def
      initializer_eq effect_sel effectCalls_def initializerCalls_def
      split: option.splits prod.splits)

lemma trace_foldl_literal:
  "list_all literalWrite (trace w) \<Longrightarrow> list_all literalWrite (trace (foldl step w evs))"
  by (induction evs arbitrary: w) (simp_all add: trace_step_literal)

lemma storage_step:
  "localStorage (step w ev) = localStorage w
   \<or> localStorage (step w ev) = (localStorage w)(darkModePrefLocalStorageKey \<mapsto> ''true'')
   \<or> localStorage (step w ev) = (localStorage w)(darkModePrefLocalStorageKey \<mapsto> ''false'')"
  by (cases ev)
    (auto simp: setIsDarkTheme_def useMLflowDarkTheme_def useState_def useEffect_def
      initializer_eq effect_sel split: option.splits prod.splits)

text \<open>
  C6. No step of the controller deletes from the store: the keys present before a
  step (a setter call, a render including the first one, a change of the host's media
  answer) are present after it. A step leaves the store as it is or overwrites the
  fixed key with \<open>true\<close> or with \<open>false\<close>; every \<^verbatim>\<open>setItem\<close> call in the trace of a
  run goes to the fixed key with one of these two literals; and from the mount on the
  record is present and is one of the two.
\<close>

theorem store_only_literal_writes:
  "dom (localStorage w) \<subseteq> dom (localStorage (step w ev))
   \<and> (localStorage (step w ev) = localStorage w
      \<or> localStorage (step w ev) = (localStorage w)(darkModePrefLocalStorageKey \<mapsto> ''true'')
      \<or> localStorage (step w ev) = (localStorage w)(darkModePrefLocalStorageKey \<mapsto> ''false''))
   \<and> (localStorage (mount st cl md) = st(darkModePrefLocalStorageKey \<mapsto> ''true'')
      \<or> localStorage (mount st cl md) = st(darkModePrefLocalStorageKey \<mapsto> ''false''))
   \<and> list_all literalWrite (trace (run st cl md evs))
   \<and> (localStorage (run st cl md evs) darkModePrefLocalStorageKey = Some ''true''
      \<or> localStorage (run st cl md evs) darkModePrefLocalStorageKey = Some ''false'')"
proof -
  have d: "dom (localStorage w) \<subseteq> dom (localStorage (step w ev))"
    using storage_step [of w ev] by auto
  have m: "localStorage (mount st cl md) = st(darkModePrefLocalStorageKey \<mapsto> ''true'')
      \<or> localStorage (mount st cl md) = st(darkModePrefLocalStorageKey \<mapsto> ''false'')"
    by (simp add: mount_eq effect_sel unmounted_sel)
  have t: "list_all literalWrite (trace (run st cl md evs))"
    unfolding run_def
    by (rule trace_foldl_literal) (simp add: mount_sel initializerCalls_def effectCalls_def)
  have r: "localStorage (run st cl md evs) darkModePrefLocalStorageKey = Some ''true''
      \<or> localStorage (run st cl md evs) darkModePrefLocalStorageKey = Some ''false''"
    using synced_run [of st cl md evs] by (auto simp: synced_iff)
  show ?thesis using d m t r storage_step [of w ev] by blast
qed

subsection \<open>The media query is read at the mount only\<close>

lemma step_media:
  "stateCell w = Some b \<Longrightarrow> \<not> isMediaChange ev \<Longrightarrow>
   step (w\<lparr>media := m\<rparr>) ev = (step w ev)\<lparr>media := m\<rparr>"
  by (cases ev) (simp_all add: setIsDarkTheme_def render_again effect_eq)

lemma step_mounted: "stateCell w = Some b \<Longrightarrow> \<exists>c. stateCell (step w ev) = Some c"
  by (cases ev) (simp_all add: setIsDarkTheme_def render_again effect_sel)

lemma foldl_mounted: "stateCell w = Some b \<Longrightarrow> \<exists>c. stateCell (foldl step w evs) = Some c"
proof (induction evs arbitrary: w b)
  case Nil
  then show ?case by simp
next
  case (Cons ev evs)
  from step_mounted [OF Cons.prems, of ev]
  obtain c where "stateCell (step w ev) = Some c" ..
  from Cons.IH [OF this] show ?case by simp
qed

lemma foldl_media:
  "stateCell w = Some b0 \<Longrightarrow>
   foldl step w evs =
     (foldl step w (controllerEvents evs))\<lparr>media := media (foldl step w evs)\<rparr>"
proof (induction evs rule: rev_induct)
  case Nil
  then show ?case by (simp add: controllerEvents_def)
next
  case (snoc ev evs)
  let ?W = "foldl step w evs"
  let ?V = "foldl step w (controllerEvents evs)"
  from snoc have ih: "?W = ?V\<lparr>media := media ?W\<rparr>" by simp
  from foldl_mounted [OF snoc.prems, of "controllerEvents evs"]
  obtain b where b: "stateCell ?V = Some b" ..
  have l: "foldl step w (evs @ [ev]) = step ?W ev" by simp
  show ?case
  proof (cases "isMediaChange ev")
    case True
    then obtain q c where ev: "ev = MediaChange q c" by (cases ev) simp_all
    have c: "controllerEvents (evs @ [ev]) = controllerEvents evs"
      by (simp add: controllerEvents_def ev)
    have "step ?W ev = ?W\<lparr>media := (media ?W)(q := c)\<rparr>" by (simp add: ev)
    also have "\<dots> = ?V\<lparr>media := (media ?W)(q := c)\<rparr>" by (subst ih) simp
    finally have k: "step ?W ev = ?V\<lparr>media := (media ?W)(q := c)\<rparr>" .
    have "\<And>x. ?V\<lparr>media := x\<rparr> = ?V\<lparr>media := media (?V\<lparr>media := x\<rparr>)\<rparr>"
      by simp
    then show ?thesis unfolding l c k .
  next
    case False
    have c: "foldl step w (controllerEvents (evs @ [ev])) = step ?V ev"
      using False by (simp add: controllerEvents_def)
    have "step ?W ev = step (?V\<lparr>media := media ?W\<rparr>) ev" using ih by simp
    also have "\<dots> = (step ?V ev)\<lparr>media := media ?W\<rparr>" by (rule step_media [OF b False])
    finally have k: "step ?W ev = (step ?V ev)\<lparr>media := media ?W\<rparr>" .
    show ?thesis unfolding l c k by simp
  qed
qed

lemma observe_run_controller:
  "observe (run st cl md evs) = observe (run st cl md (controllerEvents evs))"
proof -
  have m: "stateCell (mount st cl md) =
      Some (st darkModePrefLocalStorageKey = Some ''true'' \<or> md prefersDarkQuery)"
    by (simp add: mount_sel)
  have "observe (foldl step (mount st cl md) evs) =
      observe ((foldl step (mount st cl md) (controllerEvents evs))
        \<lparr>media := media (foldl step (mount st cl md) evs)\<rparr>)"
    using foldl_media [OF m, of evs] by simp
  then show ?thesis by (simp add: run_def observe_def)
qed

lemma step_no_media_read:
  "stateCell w = Some b \<Longrightarrow>
   filter isMatchMedia (trace (step w ev)) = filter isMatchMedia (trace w)"
  by (cases ev) (simp_all add: setIsDarkTheme_def render_again effect_sel effectCalls_def)

lemma foldl_no_media_read:
  "stateCell w = Some b \<Longrightarrow>
   filter isMatchMedia (trace (foldl step w evs)) = filter isMatchMedia (trace w)"
proof (induction evs arbitrary: w b)
  case Nil
  then show ?case by simp
next
  case (Cons ev evs)
  from step_mounted [OF Cons.prems, of ev]
  obtain c where "stateCell (step w ev) = Some c" ..
  from Cons.IH [OF this] show ?case
    by (simp add: step_no_media_read [OF Cons.prems])
qed

text \<open>
  C7. Two runs from the same initial host whose events differ only in the changes of
  the host's media answers made after the mount (their setter calls and renders are the
  same, in the same order) cannot be told apart: the current boolean, the store, the
  class list and the whole trace of host calls are equal. A single step of a mounted
  component gives the same observation whatever the media answers are, and the only
  \<^verbatim>\<open>matchMedia\<close> calls in the trace of a run are those of the initializer.
\<close>

theorem media_irrelevant_after_mount:
  "controllerEvents evs1 = controllerEvents evs2 \<Longrightarrow>
     observe (run st cl md evs1) = observe (run st cl md evs2)
   \<and> (stateCell w = Some b \<and> \<not> isMediaChange ev \<longrightarrow>
        observe (step (w\<lparr>media := m\<rparr>) ev) = observe (step w ev))
   \<and> filter isMatchMedia (trace (run st cl md evs1)) =
        filter isMatchMedia (initializerCalls st)"
proof -
  assume eq: "controllerEvents evs1 = controllerEvents evs2"
  have runs: "observe (run st cl md evs1) = observe (run st cl md evs2)"
    using observe_run_controller [of st cl md evs1] observe_run_controller [of st cl md evs2] eq
    by simp
  have one: "stateCell w = Some b \<and> \<not> isMediaChange ev \<longrightarrow>
        observe (step (w\<lparr>media := m\<rparr>) ev) = observe (step w ev)"
    by (auto simp: step_media observe_def)
  have m: "stateCell (mount st cl md) =
      Some (st darkModePrefLocalStorageKey = Some ''true'' \<or> md prefersDarkQuery)"
    by (simp add: mount_sel)
  have reads: "filter isMatchMedia (trace (run st cl md evs1)) =
        filter isMatchMedia (initializerCalls st)"
    unfolding run_def
    by (simp add: foldl_no_media_read [OF m] mount_sel effectCalls_def)
  show ?thesis using runs one reads by simp
qed

theorem media_irrelevant_after_mount_witness:
  "controllerEvents [MediaChange prefersDarkQuery True, Set (Direct True), Render] =
     controllerEvents [Set (Direct True), Render, MediaChange prefersDarkQuery False]
   \<and> observe (run Map.empty [] (\<lambda>q. False)
        [MediaChange prefersDarkQuery True, Set (Direct True), Render]) =
      observe (run Map.empty [] (\<lambda>q. False)
        [Set (Direct True), Render, MediaChange prefersDarkQuery False])
   \<and> filter isMatchMedia (trace (run Map.empty [] (\<lambda>q. False)
        [MediaChange prefersDarkQuery True, Set (Direct True), Render])) =
      [MatchMedia prefersDarkQuery]"
proof -
  have h: "controllerEvents [MediaChange prefersDarkQuery True, Set (Direct True), Render] =
     controllerEvents [Set (Direct True), Render, MediaChange prefersDarkQuery False]"
    by (simp add: controllerEvents_def)
  show ?thesis
    using h media_irrelevant_after_mount [OF h, of Map.empty "[]" "\<lambda>q. False"]
    by (simp add: initializerCalls_def)
qed

subsection \<open>Reading the current value\<close>

text \<open>
  C8. The current value is what a render of the hook returns. On every reachable world
  (after the mount and any events) a render returns the in-memory boolean and leaves the
  whole world as it was: the boolean, the store, the class list, and no host call is
  made.
\<close>

theorem reading_has_no_side_effect:
  "snd (useMLflowDarkTheme (run st cl md evs)) = run st cl md evs
   \<and> stateCell (run st cl md evs) = Some (fst (useMLflowDarkTheme (run st cl md evs)))
   \<and> localStorage (snd (useMLflowDarkTheme (run st cl md evs))) = localStorage (run st cl md evs)
   \<and> classList (snd (useMLflowDarkTheme (run st cl md evs))) = classList (run st cl md evs)
   \<and> trace (snd (useMLflowDarkTheme (run st cl md evs))) = trace (run st cl md evs)"
proof -
  let ?w = "run st cl md evs"
  have s: "synced ?w" by (rule synced_run)
  then obtain b where b: "stateCell ?w = Some b" by (auto simp: synced_iff)
  have "fst (useMLflowDarkTheme ?w) = b" by (simp add: render_again [OF b])
  then show ?thesis using b by (simp add: synced_render [OF s])
qed

subsection \<open>Stored strings other than \<open>true\<close>\<close>

text \<open>
  C9. The stored string is compared with \<open>true\<close> by strict equality. With any other
  string \<open>v\<close> under the key (\<open>TRUE\<close>, \<open>1\<close>, \<open>false\<close>, the empty string, ...) the first
  render returns the media answer, and its whole result, value and world (store, class
  list, trace), is the one obtained with no record under the key.
\<close>

theorem other_strings_as_absent:
  "v \<noteq> ''true'' \<Longrightarrow>
     useMLflowDarkTheme (unmounted (st(darkModePrefLocalStorageKey \<mapsto> v)) cl md) =
       useMLflowDarkTheme (unmounted (st(darkModePrefLocalStorageKey := None)) cl md)
   \<and> fst (useMLflowDarkTheme (unmounted (st(darkModePrefLocalStorageKey \<mapsto> v)) cl md)) =
       md prefersDarkQuery
   \<and> fst (initializer (unmounted (st(darkModePrefLocalStorageKey \<mapsto> v)) cl md)) =
       fst (initializer (unmounted (st(darkModePrefLocalStorageKey := None)) cl md))"
  by (simp add: render_first unmounted_sel initializer_eq useEffect_def effect_eq
      initializerCalls_def unmounted_def)

theorem other_strings_as_absent_witness:
  "''TRUE'' \<noteq> ''true'' \<and> ''1'' \<noteq> ''true''
   \<and> useMLflowDarkTheme (unmounted [darkModePrefLocalStorageKey \<mapsto> ''TRUE''] [] (\<lambda>q. False)) =
       useMLflowDarkTheme (unmounted Map.empty [] (\<lambda>q. False))
   \<and> fst (useMLflowDarkTheme
       (unmounted [darkModePrefLocalStorageKey \<mapsto> ''TRUE''] [] (\<lambda>q. False))) = False
   \<and> fst (useMLflowDarkTheme
       (unmounted [darkModePrefLocalStorageKey \<mapsto> ''1''] [] (\<lambda>q. True))) = True"
proof -
  have a: "''TRUE'' \<noteq> ''true''" by simp
  have b: "''1'' \<noteq> ''true''" by simp
  show ?thesis
    using a b other_strings_as_absent [OF a, of Map.empty "[]" "\<lambda>q. False"]
      other_strings_as_absent [OF b, of Map.empty "[]" "\<lambda>q. True"]
    by (simp add: first_value)
qed

subsection \<open>The initializer only reads\<close>

text \<open>
  C10. The initializer returns the world it was given with nothing changed but the
  trace, to which it appends its reads (\<^verbatim>\<open>getItem\<close>, and \<^verbatim>\<open>matchMedia\<close> unless the
  record is \<open>true\<close>): the store and the class list are untouched and no write is
  traced. The writes of the mount are those of the effect, run after the initializer
  for the initial value: the class toggle first, the \<^verbatim>\<open>setItem\<close> second.
\<close>

theorem initializer_reads_only:
  "snd (initializer w) = w\<lparr>trace := trace w @ initializerCalls (localStorage w)\<rparr>
   \<and> localStorage (snd (initializer w)) = localStorage w
   \<and> classList (snd (initializer w)) = classList w
   \<and> filter isWrite (initializerCalls (localStorage w)) = []
   \<and> filter isWrite (trace (snd (initializer w))) = filter isWrite (trace w)
   \<and> mount st cl md =
       (effect (fst (initializer (unmounted st cl md)))
          ((snd (initializer (unmounted st cl md)))
             \<lparr>stateCell := Some (fst (initializer (unmounted st cl md)))\<rparr>))
       \<lparr>effectDeps := Some [fst (initializer (unmounted st cl md))]\<rparr>
   \<and> trace (mount st cl md) =
       initializerCalls st @ effectCalls (fst (initializer (unmounted st cl md)))
   \<and> filter isWrite (trace (mount st cl md)) =
       effectCalls (fst (initializer (unmounted st cl md)))"
proof -
  have r: "filter isWrite (initializerCalls (localStorage w)) = []"
    by (simp add: initializerCalls_def)
  have r': "filter isWrite (initializerCalls st) = []"
    by (simp add: initializerCalls_def)
  have i: "snd (initializer w) = w\<lparr>trace := trace w @ initializerCalls (localStorage w)\<rparr>"
    by (simp add: initializer_eq)
  have m: "mount st cl md =
       (effect (fst (initializer (unmounted st cl md)))
          ((snd (initializer (unmounted st cl md)))
             \<lparr>stateCell := Some (fst (initializer (unmounted st cl md)))\<rparr>))
       \<lparr>effectDeps := Some [fst (initializer (unmounted st cl md))]\<rparr>"
    by (simp add: mount_def render_first unmounted_sel useEffect_def initializer_eq)
  have t: "trace (mount st cl md) =
       initializerCalls st @ effectCalls (fst (initializer (unmounted st cl md)))"
    by (simp add: mount_sel initializer_eq unmounted_sel)
  have f: "filter isWrite (trace (mount st cl md)) =
       effectCalls (fst (initializer (unmounted st cl md)))"
    by (simp add: t r') (simp add: effectCalls_def)
  show ?thesis using r i m t f by simp
qed

end
